theory Spec2Isabelle
  imports Complex_Main "HOL-Library.Sublist"
begin

section \<open>Starlink Direct-to-Cell tracker: a shallow embedding of app.js\<close>

text \<open>
  The development follows \<^verbatim>\<open>src/app.js\<close> (the tracker with the Direct-to-Cell name
  filter and the 25 degree threshold) and, for the catalog loader without the name
  filter, the second script kept in \<^verbatim>\<open>src/unnamed/part_000\<close>.

  Conventions of the embedding:
  \<^item> JavaScript numbers are modelled as \<open>real\<close> (integers as \<open>int\<close> where the code only
    counts): the rounding of IEEE doubles, NaN and the infinities are not modelled.
  \<^item> JavaScript strings are modelled as \<open>string\<close>, restricted to ASCII text, which is
    what a two-line-element document holds.
  \<^item> The module-level variables are the fields of the record \<open>world\<close>; the instant
    that \<^verbatim>\<open>new Date()\<close> reads is a field of it as well.
  \<^item> The astrodynamics library (global \<^verbatim>\<open>satellite\<close>) is a parameter: a record of
    functions, each of which may throw.
\<close>

subsection \<open>JavaScript primitives used by the script\<close>

text \<open>\<^verbatim>\<open>Math.PI\<close> is the double nearest to pi, an exact binary fraction.\<close>

definition Math_PI :: real where
  "Math_PI = 884279719003555 / 281474976710656"

text \<open>\<^verbatim>\<open>Math.round\<close> rounds to the nearest integer, a tie going towards plus infinity.\<close>

definition Math_round :: "real \<Rightarrow> int" where
  "Math_round x = \<lfloor>x + 1 / 2\<rfloor>"

text \<open>The remainder operator \<^verbatim>\<open>%\<close> truncates: the result has the sign of the dividend.\<close>

definition js_rem :: "int \<Rightarrow> int \<Rightarrow> int" where
  "js_rem a b = sgn a * (\<bar>a\<bar> mod \<bar>b\<bar>)"

text \<open>Reading an array at an index outside of it yields \<^verbatim>\<open>undefined\<close>, here \<open>None\<close>.\<close>

definition js_index :: "'a list \<Rightarrow> int \<Rightarrow> 'a option" where
  "js_index xs i = (if 0 \<le> i \<and> nat i < length xs then Some (xs ! nat i) else None)"

text \<open>
  \<^verbatim>\<open>x.toFixed(d)\<close> yields the decimal string with \<open>d\<close> fractional digits nearest to
  \<open>x\<close>, a tie going away from zero. The string is represented by its scaled integer:
  \<open>Decimal n d\<close> stands for the digits of \<open>n / 10 ^ d\<close>. \<^verbatim>\<open>parseFloat\<close> reads it back.
\<close>

datatype decimal = Decimal int nat

definition toFixed :: "real \<Rightarrow> nat \<Rightarrow> decimal" where
  "toFixed x d =
     (if x < 0 then Decimal (- \<lfloor>- x * 10 ^ d + 1 / 2\<rfloor>) d
      else Decimal \<lfloor>x * 10 ^ d + 1 / 2\<rfloor> d)"

fun parseFloat :: "decimal \<Rightarrow> real" where
  "parseFloat (Decimal n d) = real_of_int n / 10 ^ d"

text \<open>
  \<^verbatim>\<open>Array.prototype.sort(cmp)\<close> is a stable sort (ECMAScript 2019): an element moves
  behind another one only when the comparator is positive on the pair. It is modelled
  as the stable insertion sort.
\<close>

fun insert_cmp :: "('a \<Rightarrow> 'a \<Rightarrow> real) \<Rightarrow> 'a \<Rightarrow> 'a list \<Rightarrow> 'a list" where
  "insert_cmp cmp x [] = [x]"
| "insert_cmp cmp x (y # ys) =
     (if cmp x y \<le> 0 then x # y # ys else y # insert_cmp cmp x ys)"

definition array_sort :: "('a \<Rightarrow> 'a \<Rightarrow> real) \<Rightarrow> 'a list \<Rightarrow> 'a list" where
  "array_sort cmp xs = foldr (insert_cmp cmp) xs []"

text \<open>Strings: \<^verbatim>\<open>trim\<close>, \<^verbatim>\<open>split('\n')\<close>, \<^verbatim>\<open>toLowerCase\<close> and \<^verbatim>\<open>includes\<close>.\<close>

definition newline :: char where
  "newline = CHR 0x0A"

definition is_whitespace :: "char \<Rightarrow> bool" where
  "is_whitespace c =
     (c = CHR 0x09 \<or> c = CHR 0x0A \<or> c = CHR 0x0B \<or> c = CHR 0x0C \<or> c = CHR 0x0D \<or> c = CHR 0x20)"

definition js_trim :: "string \<Rightarrow> string" where
  "js_trim s = rev (dropWhile is_whitespace (rev (dropWhile is_whitespace s)))"

fun js_split :: "char \<Rightarrow> string \<Rightarrow> string list" where
  "js_split sep [] = [[]]"
| "js_split sep (c # cs) =
     (if c = sep then [] # js_split sep cs
      else (case js_split sep cs of
              [] \<Rightarrow> [[c]]
            | l # ls \<Rightarrow> (c # l) # ls))"

text \<open>An upper-case ASCII letter differs from its lower-case form in bit 5 only.\<close>

fun toLowerCase_char :: "char \<Rightarrow> char" where
  "toLowerCase_char (Char b0 b1 b2 b3 b4 b5 b6 b7) =
     (let n = (of_char (Char b0 b1 b2 b3 b4 b5 b6 b7) :: nat)
      in if 65 \<le> n \<and> n \<le> 90 then Char b0 b1 b2 b3 b4 True b6 b7
         else Char b0 b1 b2 b3 b4 b5 b6 b7)"

definition toLowerCase :: "string \<Rightarrow> string" where
  "toLowerCase s = map toLowerCase_char s"

fun starts_with :: "string \<Rightarrow> string \<Rightarrow> bool" where
  "starts_with s [] = True"
| "starts_with [] (p # ps) = False"
| "starts_with (c # cs) (p # ps) = (c = p \<and> starts_with cs ps)"

fun str_includes :: "string \<Rightarrow> string \<Rightarrow> bool" where
  "str_includes [] sub = starts_with [] sub"
| "str_includes (c # cs) sub = (starts_with (c # cs) sub \<or> str_includes cs sub)"

subsection \<open>Module state\<close>

text \<open>A catalog record: \<^verbatim>\<open>{name, tle1, tle2}\<close>.\<close>

record sat =
  name :: string
  tle1 :: string
  tle2 :: string

text \<open>\<^verbatim>\<open>userLocation\<close>: \<^verbatim>\<open>{latitude, longitude, altitude}\<close>, degrees and metres.\<close>

record location =
  latitude :: real
  longitude :: real
  altitude :: real

text \<open>
  The globals \<^verbatim>\<open>userLocation\<close> (\<^verbatim>\<open>null\<close> until acquired), \<^verbatim>\<open>satellites\<close> and
  \<^verbatim>\<open>compassHeading\<close>, and the reading of the wall clock in milliseconds that
  \<^verbatim>\<open>new Date()\<close> returns.
\<close>

record world =
  userLocation :: "location option"
  satellites :: "sat list"
  compassHeading :: real
  clock :: int

definition MIN_ELEVATION :: real where
  "MIN_ELEVATION = 25"

subsection \<open>getCompassDirection\<close>

definition directions :: "string list" where
  "directions = [''N'', ''NNE'', ''NE'', ''ENE'', ''E'', ''ESE'', ''SE'', ''SSE'',
                 ''S'', ''SSW'', ''SW'', ''WSW'', ''W'', ''WNW'', ''NW'', ''NNW'']"

definition getCompassDirection :: "real \<Rightarrow> string option" where
  "getCompassDirection azimuth =
     (let index = js_rem (Math_round (azimuth / 22.5)) 16
      in js_index directions index)"

subsection \<open>renderSkyMap: the position of a satellite on the map\<close>

text \<open>
  The body of the \<^verbatim>\<open>forEach\<close> of \<^verbatim>\<open>renderSkyMap\<close> computes the point \<open>(x, y)\<close> of a
  satellite from the constants \<^verbatim>\<open>size\<close>, \<^verbatim>\<open>center = size / 2\<close> and
  \<^verbatim>\<open>radius = size / 2 - 20\<close>. The size is the parameter \<open>sz\<close> here; the script fixes
  it to 300.
\<close>

definition map_center :: "real \<Rightarrow> real" where
  "map_center sz = sz / 2"

definition map_radius :: "real \<Rightarrow> real" where
  "map_radius sz = sz / 2 - 20"

definition elevationRadius :: "real \<Rightarrow> real \<Rightarrow> real" where
  "elevationRadius sz elevation = map_radius sz * (1 - elevation / 90)"

definition plotPoint :: "real \<Rightarrow> real \<Rightarrow> real \<Rightarrow> real \<times> real" where
  "plotPoint sz azimuth elevation =
     (let azimuthRad = (azimuth - 90) * (Math_PI / 180);
          x = map_center sz + elevationRadius sz elevation * cos azimuthRad;
          y = map_center sz + elevationRadius sz elevation * sin azimuthRad
      in (x, y))"

subsection \<open>fetchTLEData\<close>

text \<open>
  What the network hands to \<^verbatim>\<open>fetchTLEData\<close>: \<^verbatim>\<open>fetch\<close> rejects, or it resolves to a
  response with its \<^verbatim>\<open>ok\<close> flag and status, whose \<^verbatim>\<open>text()\<close> rejects or resolves to
  the document.
\<close>

datatype body = TextRejected | Text string

datatype fetch_outcome = FetchRejected | Response bool nat body

datatype fetch_error = NetworkError | HttpError nat | BodyError

text \<open>The filter of app.js on the lower-cased name.\<close>

definition isDTC :: "string \<Rightarrow> bool" where
  "isDTC nameLower =
     (str_includes nameLower ''dtc'' \<or>
      str_includes nameLower ''direct to cell'' \<or>
      str_includes nameLower ''direct-to-cell'')"

text \<open>
  The parsing loop of app.js: \<^verbatim>\<open>for (let i = 0; i < lines.length; i += 3)\<close>, with the
  accumulator \<^verbatim>\<open>sats\<close>.
\<close>

function parseLoop :: "string list \<Rightarrow> nat \<Rightarrow> sat list \<Rightarrow> sat list" where
  "parseLoop lines i sats =
     (if i < length lines then
        (if i + 2 < length lines then
           (let nm = js_trim (lines ! i);
                nameLower = toLowerCase nm
            in if isDTC nameLower
               then parseLoop lines (i + 3)
                      (sats @ [\<lparr>name = nm, tle1 = lines ! (i + 1), tle2 = lines ! (i + 2)\<rparr>])
               else parseLoop lines (i + 3) sats)
         else parseLoop lines (i + 3) sats)
      else sats)"
  by pat_completeness auto
termination
  by (relation "measure (\<lambda>(lines, i, sats). length lines - i)") auto

text \<open>The parsing loop of the script without the name filter (part_000).\<close>

function parseLoop_all :: "string list \<Rightarrow> nat \<Rightarrow> sat list \<Rightarrow> sat list" where
  "parseLoop_all lines i sats =
     (if i < length lines then
        (if i + 2 < length lines then
           (let nm = js_trim (lines ! i)
            in parseLoop_all lines (i + 3)
                 (sats @ [\<lparr>name = nm, tle1 = lines ! (i + 1), tle2 = lines ! (i + 2)\<rparr>]))
         else parseLoop_all lines (i + 3) sats)
      else sats)"
  by pat_completeness auto
termination
  by (relation "measure (\<lambda>(lines, i, sats). length lines - i)") auto

text \<open>
  The body of the \<^verbatim>\<open>try\<close> block: an exception is \<open>Inl\<close>, the world after the
  assignment \<^verbatim>\<open>satellites = sats\<close> is \<open>Inr\<close>.
\<close>

definition fetchTLEData_try :: "fetch_outcome \<Rightarrow> world \<Rightarrow> fetch_error + world" where
  "fetchTLEData_try outcome w =
     (case outcome of
        FetchRejected \<Rightarrow> Inl NetworkError
      | Response ok status b \<Rightarrow>
          if \<not> ok then Inl (HttpError status)
          else (case b of
                  TextRejected \<Rightarrow> Inl BodyError
                | Text text \<Rightarrow>
                    (let lines = js_split newline (js_trim text);
                         sats = parseLoop lines 0 []
                     in Inr (w\<lparr>satellites := sats\<rparr>))))"

text \<open>\<^verbatim>\<open>fetchTLEData\<close>: the value it resolves to, and the world it leaves.\<close>

definition fetchTLEData :: "fetch_outcome \<Rightarrow> world \<Rightarrow> bool \<times> world" where
  "fetchTLEData outcome w =
     (case fetchTLEData_try outcome w of
        Inr w' \<Rightarrow> (True, w')
      | Inl err \<Rightarrow> (False, w))"

definition fetchTLEData_all_try :: "fetch_outcome \<Rightarrow> world \<Rightarrow> fetch_error + world" where
  "fetchTLEData_all_try outcome w =
     (case outcome of
        FetchRejected \<Rightarrow> Inl NetworkError
      | Response ok status b \<Rightarrow>
          if \<not> ok then Inl (HttpError status)
          else (case b of
                  TextRejected \<Rightarrow> Inl BodyError
                | Text text \<Rightarrow>
                    (let lines = js_split newline (js_trim text);
                         sats = parseLoop_all lines 0 []
                     in Inr (w\<lparr>satellites := sats\<rparr>))))"

definition fetchTLEData_all :: "fetch_outcome \<Rightarrow> world \<Rightarrow> bool \<times> world" where
  "fetchTLEData_all outcome w =
     (case fetchTLEData_all_try outcome w of
        Inr w' \<Rightarrow> (True, w')
      | Inl err \<Rightarrow> (False, w))"

subsection \<open>The astrodynamics library\<close>

text \<open>
  A call into the library either throws or returns. What it throws is an \<^verbatim>\<open>Error\<close>
  object: the first \<^verbatim>\<open>catch\<close> block of the script logs its message, the second one
  ignores it, and nothing else depends on it, so it is not kept.
\<close>

datatype 'a completion = Throws | Returns 'a

text \<open>\<^verbatim>\<open>observerGd\<close>: geodetic latitude and longitude in radians, height in km.\<close>

record observer =
  gd_latitude :: real
  gd_longitude :: real
  gd_height :: real

text \<open>The look angles: azimuth and elevation in radians, range in km.\<close>

record look_angles =
  azimuth :: real
  elevation :: real
  rangeSat :: real

text \<open>
  The five functions of the library that the script calls, on instants in
  milliseconds. \<^verbatim>\<open>propagate\<close> reports a propagation that is not valid by a
  \<^verbatim>\<open>position\<close> that is falsy or a boolean, here \<open>None\<close>. The types of the satellite
  record and of the two position vectors are the library's own.
\<close>

record ('r, 'p, 'f) satlib =
  twoline2satrec :: "string \<Rightarrow> string \<Rightarrow> 'r completion"
  propagate :: "'r \<Rightarrow> int \<Rightarrow> 'p option completion"
  gstime :: "int \<Rightarrow> real completion"
  eciToEcf :: "'p \<Rightarrow> real \<Rightarrow> 'f completion"
  ecfToLookAngles :: "observer \<Rightarrow> 'f \<Rightarrow> look_angles completion"

subsection \<open>calculatePositions\<close>

text \<open>An entry of \<^verbatim>\<open>visible\<close>: the name and the three \<^verbatim>\<open>toFixed\<close> strings.\<close>

record visible_entry =
  vis_name :: string
  vis_azimuth :: decimal
  vis_elevation :: decimal
  vis_distance :: decimal

text \<open>An entry of \<^verbatim>\<open>upcoming\<close>: \<^verbatim>\<open>{name, time, minutesUntil}\<close>.\<close>

record upcoming_pass =
  pass_name :: string
  pass_time :: int
  minutesUntil :: int

text \<open>
  Both loops run the same chain of library calls inside their \<^verbatim>\<open>try\<close> block, up to
  the look angles: \<open>Throws\<close> when a call throws, \<open>Returns None\<close> when the test on
  \<^verbatim>\<open>positionAndVelocity.position\<close> fails.
\<close>

definition lookAnglesAt ::
  "('r, 'p, 'f) satlib \<Rightarrow> observer \<Rightarrow> sat \<Rightarrow> int \<Rightarrow> look_angles option completion" where
  "lookAnglesAt lib observerGd s t =
     (case twoline2satrec lib (tle1 s) (tle2 s) of
        Throws \<Rightarrow> Throws
      | Returns satrec \<Rightarrow>
          (case propagate lib satrec t of
             Throws \<Rightarrow> Throws
           | Returns None \<Rightarrow> Returns None
           | Returns (Some positionEci) \<Rightarrow>
               (case gstime lib t of
                  Throws \<Rightarrow> Throws
                | Returns gmst \<Rightarrow>
                    (case eciToEcf lib positionEci gmst of
                       Throws \<Rightarrow> Throws
                     | Returns positionEcf \<Rightarrow>
                         (case ecfToLookAngles lib observerGd positionEcf of
                            Throws \<Rightarrow> Throws
                          | Returns lookAngles \<Rightarrow> Returns (Some lookAngles))))))"

text \<open>
  The body of \<^verbatim>\<open>satellites.forEach\<close>, with its \<^verbatim>\<open>try\<close> and \<^verbatim>\<open>catch\<close>: the array
  \<^verbatim>\<open>visible\<close> after the satellite \<open>s\<close> has been looked at.
\<close>

definition visibleStep ::
  "('r, 'p, 'f) satlib \<Rightarrow> observer \<Rightarrow> int \<Rightarrow> visible_entry list \<Rightarrow> sat \<Rightarrow> visible_entry list" where
  "visibleStep lib observerGd now visible s =
     (case lookAnglesAt lib observerGd s now of
        Returns (Some lookAngles) \<Rightarrow>
          (let azimuthDeg = azimuth lookAngles * (180 / Math_PI);
               elevationDeg = elevation lookAngles * (180 / Math_PI)
           in if elevationDeg > MIN_ELEVATION
              then visible @ [\<lparr>vis_name = name s,
                               vis_azimuth = toFixed azimuthDeg 1,
                               vis_elevation = toFixed elevationDeg 1,
                               vis_distance = toFixed (rangeSat lookAngles) 0\<rparr>]
              else visible)
      | Returns None \<Rightarrow> visible
      | Throws \<Rightarrow> visible)"

text \<open>
  The inner loop of the look-ahead, \<^verbatim>\<open>for (const sat of satellites.slice(0, 100))\<close>,
  at one future instant: it stops at the \<^verbatim>\<open>break\<close> once five passes are known.
\<close>

fun passesAt ::
  "('r, 'p, 'f) satlib \<Rightarrow> observer \<Rightarrow> int \<Rightarrow> int \<Rightarrow> sat list \<Rightarrow> upcoming_pass list
     \<Rightarrow> upcoming_pass list" where
  "passesAt lib observerGd futureTime minutes [] upcoming = upcoming"
| "passesAt lib observerGd futureTime minutes (s # rest) upcoming =
     (case lookAnglesAt lib observerGd s futureTime of
        Returns (Some lookAngles) \<Rightarrow>
          (let elevationDeg = elevation lookAngles * (180 / Math_PI)
           in if elevationDeg > MIN_ELEVATION
                 \<and> List.find (\<lambda>p. pass_name p = name s) upcoming = None
              then (let upcoming' = upcoming @ [\<lparr>pass_name = name s,
                                                  pass_time = futureTime,
                                                  minutesUntil = minutes\<rparr>]
                    in if length upcoming' \<ge> 5 then upcoming'
                       else passesAt lib observerGd futureTime minutes rest upcoming')
              else passesAt lib observerGd futureTime minutes rest upcoming)
      | Returns None \<Rightarrow> passesAt lib observerGd futureTime minutes rest upcoming
      | Throws \<Rightarrow> passesAt lib observerGd futureTime minutes rest upcoming)"

text \<open>
  The outer loop, \<^verbatim>\<open>for (let minutes = 1; minutes <= 180; minutes += 2)\<close>, over the
  catalog \<open>sats\<close>.
\<close>

function scanMinutes ::
  "('r, 'p, 'f) satlib \<Rightarrow> observer \<Rightarrow> int \<Rightarrow> sat list \<Rightarrow> int \<Rightarrow> upcoming_pass list
     \<Rightarrow> upcoming_pass list" where
  "scanMinutes lib observerGd now sats minutes upcoming =
     (if minutes \<le> 180 then
        (let futureTime = now + minutes * 60 * 1000;
             upcoming' = passesAt lib observerGd futureTime minutes (take 100 sats) upcoming
         in if length upcoming' \<ge> 5 then upcoming'
            else scanMinutes lib observerGd now sats (minutes + 2) upcoming')
      else upcoming)"
  by pat_completeness auto
termination
  by (relation "measure (\<lambda>(lib, observerGd, now, sats, minutes, upcoming). nat (181 - minutes))")
    auto

text \<open>The two comparators handed to \<^verbatim>\<open>sort\<close>.\<close>

definition byElevationDesc :: "visible_entry \<Rightarrow> visible_entry \<Rightarrow> real" where
  "byElevationDesc a b = parseFloat (vis_elevation b) - parseFloat (vis_elevation a)"

definition bySoonest :: "upcoming_pass \<Rightarrow> upcoming_pass \<Rightarrow> real" where
  "bySoonest a b = real_of_int (minutesUntil a - minutesUntil b)"

text \<open>
  What a call of \<^verbatim>\<open>calculatePositions\<close> does: it returns early after logging that it
  waits, or it calls \<^verbatim>\<open>renderApp(visible, upcoming)\<close>.
\<close>

datatype outcome = Waiting | Rendered "visible_entry list" "upcoming_pass list"

text \<open>
  \<^verbatim>\<open>observerGd\<close>. The altitude is a number once \<^verbatim>\<open>init\<close> has stored the location, so
  \<^verbatim>\<open>userLocation.altitude || 0\<close> is the altitude itself.
\<close>

definition observerOf :: "location \<Rightarrow> observer" where
  "observerOf loc =
     \<lparr>gd_latitude = latitude loc * (Math_PI / 180),
      gd_longitude = longitude loc * (Math_PI / 180),
      gd_height = altitude loc / 1000\<rparr>"

definition calculatePositions :: "('r, 'p, 'f) satlib \<Rightarrow> world \<Rightarrow> outcome" where
  "calculatePositions lib w =
     (case userLocation w of
        None \<Rightarrow> Waiting
      | Some loc \<Rightarrow>
          if length (satellites w) = 0 then Waiting
          else
            (let now = clock w;
                 observerGd = observerOf loc;
                 visible = foldl (visibleStep lib observerGd now) [] (satellites w);
                 visible = array_sort byElevationDesc visible;
                 upcoming =
                   (if length visible = 0
                    then array_sort bySoonest (scanMinutes lib observerGd now (satellites w) 1 [])
                    else [])
             in Rendered visible upcoming))"

subsection \<open>renderSkyMap: a visible entry on the map\<close>

text \<open>
  \<^verbatim>\<open>renderSkyMap\<close> reads the azimuth and the elevation of an entry back with
  \<^verbatim>\<open>parseFloat\<close> and plots the entry on the map of size 300.
\<close>

definition skyMapPoint :: "visible_entry \<Rightarrow> real \<times> real" where
  "skyMapPoint s = plotPoint 300 (parseFloat (vis_azimuth s)) (parseFloat (vis_elevation s))"

subsection \<open>Failing records, documents of lines\<close>

text \<open>
  A satellite fails at an instant when a library call throws for it there, or the
  propagation reports no valid position.
\<close>

definition failsAt :: "('r, 'p, 'f) satlib \<Rightarrow> observer \<Rightarrow> sat \<Rightarrow> int \<Rightarrow> bool" where
  "failsAt lib observerGd s t =
     (lookAnglesAt lib observerGd s t = Throws \<or> lookAnglesAt lib observerGd s t = Returns None)"

text \<open>The document whose lines are \<open>ls\<close>: a newline between each line and the next.\<close>

fun join_lines :: "string list \<Rightarrow> string" where
  "join_lines [] = []"
| "join_lines [l] = l"
| "join_lines (l # l' # ls) = l @ newline # join_lines (l' # ls)"

subsection \<open>The sampler in the words of its specification\<close>

text \<open>
  A record clears the threshold at an instant when the library yields look angles for
  it there and the elevation, in degrees, exceeds the threshold.
\<close>

definition clearsAt :: "('r, 'p, 'f) satlib \<Rightarrow> observer \<Rightarrow> sat \<Rightarrow> int \<Rightarrow> bool" where
  "clearsAt lib observerGd s t =
     (case lookAnglesAt lib observerGd s t of
        Returns (Some lookAngles) \<Rightarrow> elevation lookAngles * (180 / Math_PI) > MIN_ELEVATION
      | Returns None \<Rightarrow> False
      | Throws \<Rightarrow> False)"








text \<open>The minutes that the outer loop of the script still visits from \<open>m\<close> on.\<close>

function minutes_from :: "int \<Rightarrow> int list" where
  "minutes_from m = (if m \<le> 180 then m # minutes_from (m + 2) else [])"
  by pat_completeness auto
termination
  by (relation "measure (\<lambda>m. nat (181 - m))") auto

subsection \<open>Concrete inputs\<close>

text \<open>
  A small library for running the script on concrete inputs. It throws on the element
  line \<open>''bad''\<close>, reports no position for \<open>''decayed''\<close> and before the minute given
  by the length of the first element line, and puts a satellite at an elevation of
  half a radian per character of its second element line.
\<close>

definition demo_lib :: "(string \<times> string, nat, nat) satlib" where
  "demo_lib =
     \<lparr>twoline2satrec = (\<lambda>l1 l2. if l1 = ''bad'' then Throws else Returns (l1, l2)),
      propagate = (\<lambda>satrec t.
        Returns (if fst satrec = ''decayed'' \<or> t < 60000 * int (length (fst satrec)) then None
                 else Some (length (snd satrec)))),
      gstime = (\<lambda>t. Returns 0),
      eciToEcf = (\<lambda>positionEci gmst. Returns positionEci),
      ecfToLookAngles = (\<lambda>observerGd positionEcf.
        Returns \<lparr>azimuth = 2, elevation = real positionEcf / 2, rangeSat = 550\<rparr>)\<rparr>"

definition demo_sats :: "sat list" where
  "demo_sats =
     [\<lparr>name = ''S1'', tle1 = ''a'', tle2 = ''b''\<rparr>,
      \<lparr>name = ''S2'', tle1 = ''bad'', tle2 = ''b''\<rparr>,
      \<lparr>name = ''S3'', tle1 = ''decayed'', tle2 = ''b''\<rparr>,
      \<lparr>name = ''S4'', tle1 = ''cc'', tle2 = ''bbb''\<rparr>,
      \<lparr>name = ''S5'', tle1 = ''d'', tle2 = ''bb''\<rparr>,
      \<lparr>name = ''S6'', tle1 = ''e'', tle2 = ''bb''\<rparr>,
      \<lparr>name = ''S7'', tle1 = ''f'', tle2 = []\<rparr>,
      \<lparr>name = ''S1'', tle1 = ''g'', tle2 = ''bb''\<rparr>,
      \<lparr>name = ''S8'', tle1 = ''h'', tle2 = ''b''\<rparr>]"

definition origin :: location where
  "origin = \<lparr>latitude = 0, longitude = 0, altitude = 0\<rparr>"

definition demo_world :: "int \<Rightarrow> world" where
  "demo_world t =
     \<lparr>userLocation = Some origin, satellites = demo_sats, compassHeading = 0, clock = t\<rparr>"

definition empty_world :: world where
  "empty_world = \<lparr>userLocation = Some origin, satellites = [], compassHeading = 0, clock = 0\<rparr>"

text \<open>
  A document of seven lines: two groups of three and one line more, with a last
  newline. The name of the second group has blanks around it.
\<close>

definition doc7 :: string where
  "doc7 = ''STARLINK-1008'' @ [newline] @ ''l1a'' @ [newline] @ ''l2a'' @ [newline] @
          '' STARLINK-11072 [DTC] '' @ [newline] @ ''l1b'' @ [newline] @ ''l2b'' @ [newline] @
          ''STARLINK-1010'' @ [newline]"

text \<open>Seven lines: two groups of three and one line more.\<close>

definition lines7 :: "string list" where
  "lines7 = [''A'', ''l1a'', ''l2a'', ''B'', ''l1b'', ''l2b'', ''C'']"

text \<open>A document of one group, whose name does not pass the filter.\<close>

definition doc3 :: string where
  "doc3 = ''STARLINK-1008'' @ [newline] @ ''l1a'' @ [newline] @ ''l2a''"

text \<open>
  What the script makes of these inputs: a visible entry of the small library, by its
  name and the tenths of a degree of its elevation, and a pass found \<open>m\<close> minutes
  after the instant 0.
\<close>

definition demo_entry :: "string \<Rightarrow> int \<Rightarrow> visible_entry" where
  "demo_entry n e =
     \<lparr>vis_name = n, vis_azimuth = Decimal 1146 1, vis_elevation = Decimal e 1,
      vis_distance = Decimal 550 0\<rparr>"

definition demo_pass :: "string \<Rightarrow> int \<Rightarrow> upcoming_pass" where
  "demo_pass n m = \<lparr>pass_name = n, pass_time = 60000 * m, minutesUntil = m\<rparr>"

section \<open>Properties\<close>

declare parseLoop.simps [simp del] parseLoop_all.simps [simp del] scanMinutes.simps [simp del]
  minutes_from.simps [simp del]

subsection \<open>Compass labels\<close>

lemma Math_round_low: "0 \<le> az \<Longrightarrow> az < 11.25 \<Longrightarrow> Math_round (az / 22.5) = 0"
  unfolding Math_round_def by (simp add: floor_eq_iff)

lemma Math_round_high: "348.75 \<le> az \<Longrightarrow> az \<le> 360 \<Longrightarrow> Math_round (az / 22.5) = 16"
  unfolding Math_round_def by (simp add: floor_eq_iff)

lemma north_indices:
  "js_index directions (js_rem 0 16) = Some ''N''"
  "js_index directions (js_rem 16 16) = Some ''N''"
  by (simp_all add: js_index_def js_rem_def directions_def)

lemma js_rem_nat: "js_rem (int n) 16 = int (n mod 16)"
  by (cases "n = 0") (simp_all add: js_rem_def zmod_int)

text \<open>
  C2, as the script has it. The label is the one of the 16 \<open>directions\<close> at the index
  \<open>round (azimuth / 22.5) mod 16\<close> for an azimuth that is not negative; 0 yields N and
  90 yields E; every azimuth from 348.75 to 360 yields N, and so does every azimuth
  from 0 up to, but not including, 11.25. \<^verbatim>\<open>Math.round\<close> takes a tie upwards, so 11.25
  itself is the first azimuth of NNE.
\<close>

theorem compass_labels:
  "((0 \<le> az \<and> az < 11.25) \<or> (348.75 \<le> az \<and> az \<le> 360)
      \<longrightarrow> getCompassDirection az = Some ''N'')
   \<and> getCompassDirection 0 = Some ''N''
   \<and> getCompassDirection 90 = Some ''E''
   \<and> (0 \<le> az \<longrightarrow>
        getCompassDirection az = Some (directions ! (nat \<lfloor>az / 22.5 + 1 / 2\<rfloor> mod 16)))
   \<and> length directions = 16"
proof -
  have wrap: "(0 \<le> az \<and> az < 11.25) \<or> (348.75 \<le> az \<and> az \<le> 360)
      \<longrightarrow> getCompassDirection az = Some ''N''"
  proof (intro impI, elim disjE)
    assume "0 \<le> az \<and> az < 11.25"
    then have "Math_round (az / 22.5) = 0" by (simp only: Math_round_low)
    then show "getCompassDirection az = Some ''N''"
      by (simp only: getCompassDirection_def Let_def north_indices)
  next
    assume "348.75 \<le> az \<and> az \<le> 360"
    then have "Math_round (az / 22.5) = 16" by (simp only: Math_round_high)
    then show "getCompassDirection az = Some ''N''"
      by (simp only: getCompassDirection_def Let_def north_indices)
  qed
  have zero: "getCompassDirection 0 = Some ''N''"
    by (simp add: getCompassDirection_def Math_round_def js_rem_def js_index_def directions_def)
  have east: "getCompassDirection 90 = Some ''E''"
    by (simp add: getCompassDirection_def Math_round_def js_rem_def js_index_def directions_def)
  have index: "getCompassDirection az = Some (directions ! (nat \<lfloor>az / 22.5 + 1 / 2\<rfloor> mod 16))"
    if "0 \<le> az"
  proof -
    have "0 \<le> \<lfloor>az / 22.5 + 1 / 2\<rfloor>" using that by simp
    then obtain n where n: "\<lfloor>az / 22.5 + 1 / 2\<rfloor> = int n"
      using nonneg_int_cases by blast
    have len: "length directions = 16" by (simp add: directions_def)
    show ?thesis
      unfolding getCompassDirection_def Math_round_def n
      by (simp add: js_index_def len js_rem_nat)
  qed
  have "length directions = 16" by (simp add: directions_def)
  with wrap zero east index show ?thesis by blast
qed

theorem compass_labels_witness:
  "getCompassDirection 350 = Some ''N''
   \<and> getCompassDirection 350 = Some (directions ! (nat \<lfloor>350 / 22.5 + 1 / 2 :: real\<rfloor> mod 16))"
  using compass_labels [of 350] by (simp add: directions_def)

theorem compass_tie_at_11_25:
  "getCompassDirection 11.25 = Some ''NNE'' \<and> getCompassDirection 11.25 \<noteq> Some ''N''"
  by (simp add: getCompassDirection_def Math_round_def js_rem_def js_index_def directions_def)

subsection \<open>The sky map\<close>

text \<open>The point of a satellite, seen from the center of the map.\<close>

lemma plotPoint_offsets:
  "fst (plotPoint sz az el) - map_center sz =
     map_radius sz * (1 - el / 90) * cos ((az - 90) * (Math_PI / 180))"
  "snd (plotPoint sz az el) - map_center sz =
     map_radius sz * (1 - el / 90) * sin ((az - 90) * (Math_PI / 180))"
  by (simp_all add: plotPoint_def elevationRadius_def Let_def)

lemma plotPoint_distance:
  "sqrt ((fst (plotPoint sz az el) - map_center sz)\<^sup>2 + (snd (plotPoint sz az el) - map_center sz)\<^sup>2)
     = \<bar>map_radius sz * (1 - el / 90)\<bar>"
proof -
  let ?a = "(az - 90) * (Math_PI / 180)"
  let ?r = "map_radius sz * (1 - el / 90)"
  have "(fst (plotPoint sz az el) - map_center sz)\<^sup>2 + (snd (plotPoint sz az el) - map_center sz)\<^sup>2
          = ?r\<^sup>2 * ((cos ?a)\<^sup>2 + (sin ?a)\<^sup>2)"
    unfolding plotPoint_offsets by (simp only: power_mult_distrib distrib_left)
  also have "\<dots> = ?r\<^sup>2"
    by (simp only: sin_cos_squared_add2 mult_1_right)
  finally show ?thesis by simp
qed

text \<open>
  C8. Whatever the azimuth and the size of the map, the distance of the point of a
  satellite from the center of the map is \<open>radius * (1 - elevation / 90)\<close>, linear in the
  elevation (its absolute value, should the radius be negative or the elevation above
  90): at elevation 90 the point is the center itself, and at elevation 0 its distance
  from the center is the radius. On the map of the script, of size 300, the center is
  (150, 150) and the radius 130: an entry is plotted at the distance
  \<open>130 * (1 - elevation / 90)\<close> from the center, an entry of elevation \<open>90.0\<close> at the
  center and an entry of elevation \<open>0.0\<close> at the distance 130.
\<close>

theorem projector_zenith_horizon:
  "sqrt ((fst (plotPoint sz az el) - map_center sz)\<^sup>2
         + (snd (plotPoint sz az el) - map_center sz)\<^sup>2) = \<bar>map_radius sz * (1 - el / 90)\<bar>
   \<and> (0 \<le> map_radius sz \<and> el \<le> 90 \<longrightarrow>
        sqrt ((fst (plotPoint sz az el) - map_center sz)\<^sup>2
              + (snd (plotPoint sz az el) - map_center sz)\<^sup>2) = map_radius sz * (1 - el / 90))
   \<and> plotPoint sz az 90 = (map_center sz, map_center sz)
   \<and> sqrt ((fst (plotPoint sz az 0) - map_center sz)\<^sup>2
           + (snd (plotPoint sz az 0) - map_center sz)\<^sup>2) = \<bar>map_radius sz\<bar>
   \<and> sqrt ((fst (skyMapPoint s) - 150)\<^sup>2 + (snd (skyMapPoint s) - 150)\<^sup>2)
       = \<bar>130 * (1 - parseFloat (vis_elevation s) / 90)\<bar>
   \<and> skyMapPoint (s\<lparr>vis_elevation := Decimal 900 1\<rparr>) = (150, 150)
   \<and> sqrt ((fst (skyMapPoint (s\<lparr>vis_elevation := Decimal 0 1\<rparr>)) - 150)\<^sup>2
           + (snd (skyMapPoint (s\<lparr>vis_elevation := Decimal 0 1\<rparr>)) - 150)\<^sup>2) = 130"
proof -
  have c: "map_center 300 = 150" and r: "map_radius 300 = 130"
    by (simp_all add: map_center_def map_radius_def)
  have inside: "sqrt ((fst (plotPoint sz az el) - map_center sz)\<^sup>2
              + (snd (plotPoint sz az el) - map_center sz)\<^sup>2) = map_radius sz * (1 - el / 90)"
    if "0 \<le> map_radius sz \<and> el \<le> 90"
  proof -
    from that have "0 \<le> map_radius sz * (1 - el / 90)" by simp
    then show ?thesis unfolding plotPoint_distance by simp
  qed
  have zenith: "plotPoint z a 90 = (map_center z, map_center z)" for z a
    by (simp add: plotPoint_def elevationRadius_def)
  have horizon: "sqrt ((fst (plotPoint sz az 0) - map_center sz)\<^sup>2
           + (snd (plotPoint sz az 0) - map_center sz)\<^sup>2) = \<bar>map_radius sz\<bar>"
    unfolding plotPoint_distance by simp
  have entry: "sqrt ((fst (skyMapPoint e) - 150)\<^sup>2 + (snd (skyMapPoint e) - 150)\<^sup>2)
       = \<bar>130 * (1 - parseFloat (vis_elevation e) / 90)\<bar>" for e
    using plotPoint_distance [of 300 "parseFloat (vis_azimuth e)" "parseFloat (vis_elevation e)"]
    unfolding skyMapPoint_def c r .
  have top: "skyMapPoint (s\<lparr>vis_elevation := Decimal 900 1\<rparr>) = (150, 150)"
    by (simp add: skyMapPoint_def zenith c)
  have edge: "sqrt ((fst (skyMapPoint (s\<lparr>vis_elevation := Decimal 0 1\<rparr>)) - 150)\<^sup>2
           + (snd (skyMapPoint (s\<lparr>vis_elevation := Decimal 0 1\<rparr>)) - 150)\<^sup>2) = 130"
    unfolding entry by simp
  from plotPoint_distance [of sz az el] inside zenith [of sz az] horizon entry [of s] top edge
  show ?thesis by blast
qed

theorem projector_zenith_horizon_witness:
  "sqrt ((fst (plotPoint 300 45 45) - 150)\<^sup>2 + (snd (plotPoint 300 45 45) - 150)\<^sup>2) = 65"
  using projector_zenith_horizon [of 300 45 45] by (simp add: map_center_def map_radius_def)

subsection \<open>The empty catalog\<close>

text \<open>
  C9, as the script has it. With an empty catalog \<^verbatim>\<open>calculatePositions\<close> logs that it
  waits and returns early: no exception, and no lists either, since \<^verbatim>\<open>renderApp\<close> is
  not called.
\<close>

theorem empty_catalog_waits:
  "satellites w = [] \<Longrightarrow> calculatePositions lib w = Waiting"
  by (simp add: calculatePositions_def split: option.split)

theorem empty_catalog_waits_witness:
  "calculatePositions demo_lib empty_world = Waiting"
  using empty_catalog_waits [of empty_world demo_lib] by (simp add: empty_world_def)

theorem empty_catalog_not_rendered:
  "calculatePositions demo_lib empty_world \<noteq> Rendered [] []"
  by (simp add: calculatePositions_def empty_world_def)

subsection \<open>The catalog loader\<close>

lemma starts_with_prefix: "starts_with s p = prefix p s"
  by (induction s p rule: starts_with.induct) auto

lemma str_includes_sublist: "str_includes s sub = sublist sub s"
  by (induction s) (simp_all add: starts_with_prefix sublist_Cons_right)

lemma map_upt_shift:
  "map f [0..<Suc m] = f 0 # map (\<lambda>k. f (Suc k)) [0..<m]"
  by (simp only: map_upt_Suc)

lemma groups_step:
  assumes "i + 2 < (n::nat)"
  shows "(n - i) div 3 = Suc ((n - (i + 3)) div 3)"
proof -
  from assms have "n - i = (n - (i + 3)) + 3" by simp
  then have "(n - i) div 3 = ((n - (i + 3)) + 3) div 3" by (rule arg_cong)
  also have "\<dots> = Suc ((n - (i + 3)) div 3)" by simp
  finally show ?thesis .
qed

text \<open>The loop without the filter, from the index \<open>i\<close> on: one record per full group.\<close>

lemma parseLoop_all_groups:
  "parseLoop_all lines i sats =
     sats @ map (\<lambda>k. \<lparr>name = js_trim (lines ! (i + 3 * k)), tle1 = lines ! (i + 3 * k + 1),
                       tle2 = lines ! (i + 3 * k + 2)\<rparr>) [0..<(length lines - i) div 3]"
proof (induction lines i sats rule: parseLoop_all.induct)
  case (1 lines i sats)
  show ?case
  proof (cases "i + 2 < length lines")
    case True
    then have groups: "(length lines - i) div 3 = Suc ((length lines - (i + 3)) div 3)"
      by (rule groups_step)
    from True have inside: "i < length lines" by simp
    show ?thesis
      apply (subst parseLoop_all.simps)
      apply (simp only: inside True if_True Let_def)
      apply (subst "1.IH"(1)[OF inside True refl])
      apply (simp only: groups map_upt_shift)
      apply (simp add: add.assoc add.left_commute)
      done
  next
    case False
    then have none: "(length lines - i) div 3 = 0" by simp
    show ?thesis
    proof (cases "i < length lines")
      case True
      have after: "(length lines - (i + 3)) div 3 = 0" using False by simp
      show ?thesis
        apply (subst parseLoop_all.simps)
        apply (simp only: True False if_True if_False)
        apply (subst "1.IH"(2)[OF True False])
        apply (simp only: none after)
        apply simp
        done
    next
      case False
      then show ?thesis by (subst parseLoop_all.simps) (simp add: none)
    qed
  qed
qed

text \<open>The loop with the filter keeps the records of the other loop that pass the filter.\<close>

lemma parseLoop_filter:
  "parseLoop lines i (filter (\<lambda>r. isDTC (toLowerCase (name r))) sats) =
     filter (\<lambda>r. isDTC (toLowerCase (name r))) (parseLoop_all lines i sats)"
proof (induction lines i sats rule: parseLoop_all.induct)
  case (1 lines i sats)
  show ?case
  proof (cases "i < length lines")
    case inside: True
    show ?thesis
    proof (cases "i + 2 < length lines")
      case True
      show ?thesis
        apply (subst parseLoop.simps)
        apply (subst parseLoop_all.simps)
        apply (simp only: inside True if_True Let_def)
        apply (subst "1.IH"(1)[OF inside True refl, symmetric])
        apply (simp only: filter_append filter.simps sat.simps if_True if_False append_Nil2
                 split: if_splits)
        apply simp
        done
    next
      case False
      show ?thesis
        apply (subst parseLoop.simps)
        apply (subst parseLoop_all.simps)
        apply (simp only: inside False if_True if_False)
        apply (rule "1.IH"(2)[OF inside False])
        done
    qed
  next
    case False
    then show ?thesis
      by (subst parseLoop.simps, subst parseLoop_all.simps) simp
  qed
qed

lemma fetchTLEData_all_ok:
  "fetchTLEData_all (Response True status (Text doc)) w =
     (True, w\<lparr>satellites := parseLoop_all (js_split newline (js_trim doc)) 0 []\<rparr>)"
  by (simp add: fetchTLEData_all_def fetchTLEData_all_try_def)

lemma fetchTLEData_ok:
  "fetchTLEData (Response True status (Text doc)) w =
     (True, w\<lparr>satellites := parseLoop (js_split newline (js_trim doc)) 0 []\<rparr>)"
  by (simp add: fetchTLEData_def fetchTLEData_try_def)

lemma fetchTLEData_failures:
  "fetchTLEData FetchRejected w = (False, w)"
  "fetchTLEData (Response False status b) w = (False, w)"
  "fetchTLEData (Response True status TextRejected) w = (False, w)"
  by (simp_all add: fetchTLEData_def fetchTLEData_try_def)

lemma fetchTLEData_all_failures:
  "fetchTLEData_all FetchRejected w = (False, w)"
  "fetchTLEData_all (Response False status b) w = (False, w)"
  "fetchTLEData_all (Response True status TextRejected) w = (False, w)"
  by (simp_all add: fetchTLEData_all_def fetchTLEData_all_try_def)

lemma fetch_outcome_cases:
  obtains "r = FetchRejected"
  | status b where "r = Response False status b"
  | status where "r = Response True status TextRejected"
  | status doc where "r = Response True status (Text doc)"
proof (cases r)
  case FetchRejected
  then show ?thesis using that(1) by simp
next
  case (Response ok status b)
  then show ?thesis using that(2-4) by (cases ok; cases b) auto
qed

lemma doc7_lines:
  "js_split newline (js_trim doc7) =
     [''STARLINK-1008'', ''l1a'', ''l2a'', '' STARLINK-11072 [DTC] '', ''l1b'', ''l2b'',
      ''STARLINK-1010'']"
  by code_simp

lemma doc7_parsed:
  "parseLoop_all (js_split newline (js_trim doc7)) 0 [] =
     [\<lparr>name = ''STARLINK-1008'', tle1 = ''l1a'', tle2 = ''l2a''\<rparr>,
      \<lparr>name = ''STARLINK-11072 [DTC]'', tle1 = ''l1b'', tle2 = ''l2b''\<rparr>]"
  by code_simp

lemma doc7_filtered:
  "parseLoop (js_split newline (js_trim doc7)) 0 [] =
     [\<lparr>name = ''STARLINK-11072 [DTC]'', tle1 = ''l1b'', tle2 = ''l2b''\<rparr>]"
  by code_simp

lemma doc3_filtered: "parseLoop (js_split newline (js_trim doc3)) 0 [] = []"
  by code_simp

text \<open>Splitting and trimming the document of given lines gives the lines back.\<close>

lemma js_split_line:
  "sep \<notin> set l \<Longrightarrow> js_split sep (l @ sep # rest) = l # js_split sep rest"
  by (induction l) auto

lemma js_split_single: "sep \<notin> set l \<Longrightarrow> js_split sep l = [l]"
  by (induction l) auto

lemma js_split_join:
  "ls \<noteq> [] \<Longrightarrow> \<forall>l\<in>set ls. newline \<notin> set l \<Longrightarrow> js_split newline (join_lines ls) = ls"
proof (induction ls rule: join_lines.induct)
  case 1
  then show ?case by simp
next
  case (2 l)
  then show ?case by (simp add: js_split_single)
next
  case (3 l l' ls)
  then show ?case by (simp add: js_split_line)
qed

lemma js_trim_id:
  assumes "s \<noteq> []" and "\<not> is_whitespace (hd s)" and "\<not> is_whitespace (last s)"
  shows "js_trim s = s"
proof -
  from assms(1,2) have "dropWhile is_whitespace s = s"
    by (cases s) simp_all
  moreover from assms(1,3) have "dropWhile is_whitespace (rev s) = rev s"
    by (cases "rev s") (simp_all add: hd_rev [symmetric])
  ultimately show ?thesis by (simp add: js_trim_def)
qed

lemma join_lines_ends:
  assumes "ls \<noteq> []" and "\<forall>l\<in>set ls. l \<noteq> []"
  shows "join_lines ls \<noteq> [] \<and> hd (join_lines ls) = hd (hd ls)
         \<and> last (join_lines ls) = last (last ls)"
  using assms by (induction ls rule: join_lines.induct) auto

lemma document_of_lines:
  assumes "ls \<noteq> []"
    and "\<forall>l\<in>set ls. l \<noteq> [] \<and> newline \<notin> set l
           \<and> \<not> is_whitespace (hd l) \<and> \<not> is_whitespace (last l)"
  shows "js_split newline (js_trim (join_lines ls)) = ls"
proof -
  from assms have ends: "join_lines ls \<noteq> []" "hd (join_lines ls) = hd (hd ls)"
    "last (join_lines ls) = last (last ls)"
    using join_lines_ends [of ls] by auto
  from assms have "\<not> is_whitespace (hd (hd ls))" "\<not> is_whitespace (last (last ls))"
    by simp_all
  with ends have "js_trim (join_lines ls) = join_lines ls"
    by (intro js_trim_id) simp_all
  with assms show ?thesis by (simp add: js_split_join)
qed

lemma loaded_groups:
  "satellites (snd (fetchTLEData_all (Response True status (Text doc)) w)) =
     map (\<lambda>k. \<lparr>name = js_trim (js_split newline (js_trim doc) ! (3 * k)),
                  tle1 = js_split newline (js_trim doc) ! (3 * k + 1),
                  tle2 = js_split newline (js_trim doc) ! (3 * k + 2)\<rparr>)
       [0..<length (js_split newline (js_trim doc)) div 3]"
  by (simp add: fetchTLEData_all_ok parseLoop_all_groups [of _ 0 "[]"])

lemma loaded_count:
  "length (satellites (snd (fetchTLEData_all (Response True status (Text doc)) w))) =
     length (js_split newline (js_trim doc)) div 3"
  unfolding loaded_groups by simp

text \<open>
  C6. The loader without the name filter turns a fetched document into one record per
  full group of three lines, \<open>length lines div 3\<close> records for
  \<open>lines = text.trim().split('\n')\<close>: the name is line 0 of the group, trimmed, and the
  element lines are lines 1 and 2 as they are. For the document made of the lines
  \<open>ls\<close>, each of them non-empty, without a newline and without blanks at its ends,
  these are the lines \<open>ls\<close> themselves, so \<open>length ls div 3\<close> records come out. What is
  left after the last full group is dropped: the document \<open>doc7\<close> of seven lines yields
  two records.
\<close>

theorem loader_groups_of_three:
  "(let lines = js_split newline (js_trim doc);
        loaded = satellites (snd (fetchTLEData_all (Response True status (Text doc)) w))
    in length loaded = length lines div 3
       \<and> loaded = map (\<lambda>k. \<lparr>name = js_trim (lines ! (3 * k)), tle1 = lines ! (3 * k + 1),
                              tle2 = lines ! (3 * k + 2)\<rparr>) [0..<length lines div 3])
   \<and> (ls \<noteq> [] \<and> (\<forall>l\<in>set ls. l \<noteq> [] \<and> newline \<notin> set l
                           \<and> \<not> is_whitespace (hd l) \<and> \<not> is_whitespace (last l))
        \<longrightarrow> js_split newline (js_trim (join_lines ls)) = ls
            \<and> length (satellites
                  (snd (fetchTLEData_all (Response True status (Text (join_lines ls))) w)))
                = length ls div 3)
   \<and> length (js_split newline (js_trim doc7)) = 7
   \<and> satellites (snd (fetchTLEData_all (Response True status (Text doc7)) w)) =
        [\<lparr>name = ''STARLINK-1008'', tle1 = ''l1a'', tle2 = ''l2a''\<rparr>,
         \<lparr>name = ''STARLINK-11072 [DTC]'', tle1 = ''l1b'', tle2 = ''l2b''\<rparr>]"
proof -
  have count: "length (js_split newline (js_trim doc7)) = 7"
    by (simp add: doc7_lines)
  have seven: "satellites (snd (fetchTLEData_all (Response True status (Text doc7)) w)) =
        [\<lparr>name = ''STARLINK-1008'', tle1 = ''l1a'', tle2 = ''l2a''\<rparr>,
         \<lparr>name = ''STARLINK-11072 [DTC]'', tle1 = ''l1b'', tle2 = ''l2b''\<rparr>]"
    by (simp add: fetchTLEData_all_ok doc7_parsed)
  have made: "js_split newline (js_trim (join_lines ls)) = ls
            \<and> length (satellites
                  (snd (fetchTLEData_all (Response True status (Text (join_lines ls))) w)))
                = length ls div 3"
    if "ls \<noteq> [] \<and> (\<forall>l\<in>set ls. l \<noteq> [] \<and> newline \<notin> set l
                           \<and> \<not> is_whitespace (hd l) \<and> \<not> is_whitespace (last l))"
    using that document_of_lines [of ls] by (simp add: loaded_count)
  have general:
    "(let lines = js_split newline (js_trim doc);
          loaded = satellites (snd (fetchTLEData_all (Response True status (Text doc)) w))
      in length loaded = length lines div 3
         \<and> loaded = map (\<lambda>k. \<lparr>name = js_trim (lines ! (3 * k)), tle1 = lines ! (3 * k + 1),
                                tle2 = lines ! (3 * k + 2)\<rparr>) [0..<length lines div 3])"
    unfolding Let_def using loaded_groups [of status doc w] loaded_count [of status doc w]
    by (rule conjI [rotated])
  from general count seven made show ?thesis by blast
qed

theorem loader_groups_of_three_witness:
  "js_split newline (js_trim (join_lines lines7)) = lines7
   \<and> length lines7 = 7
   \<and> length (satellites
           (snd (fetchTLEData_all (Response True 200 (Text (join_lines lines7))) empty_world)))
       = 2"
proof -
  have lines: "lines7 \<noteq> [] \<and> (\<forall>l\<in>set lines7. l \<noteq> [] \<and> newline \<notin> set l
                           \<and> \<not> is_whitespace (hd l) \<and> \<not> is_whitespace (last l))"
    by (simp add: lines7_def is_whitespace_def newline_def)
  have "length lines7 = 7" by (simp add: lines7_def)
  with loader_groups_of_three [of doc7 200 empty_world lines7] lines show ?thesis
    by simp
qed

text \<open>
  C7. The loader of app.js keeps, in the order of the document, exactly the records of
  the unfiltered loader whose lower-cased name contains \<open>dtc\<close>, \<open>direct to cell\<close> or
  \<open>direct-to-cell\<close>. When no record passes, the fetch still succeeds: it returns true
  and stores the empty catalog.
\<close>

theorem dtc_filter:
  "satellites (snd (fetchTLEData (Response True status (Text doc)) w)) =
     filter (\<lambda>r. isDTC (toLowerCase (name r)))
       (satellites (snd (fetchTLEData_all (Response True status (Text doc)) w)))
   \<and> isDTC (toLowerCase n) =
       (sublist ''dtc'' (toLowerCase n) \<or> sublist ''direct to cell'' (toLowerCase n)
        \<or> sublist ''direct-to-cell'' (toLowerCase n))
   \<and> fst (fetchTLEData (Response True status (Text doc)) w)
   \<and> (filter (\<lambda>r. isDTC (toLowerCase (name r)))
         (satellites (snd (fetchTLEData_all (Response True status (Text doc)) w))) = []
       \<longrightarrow> fetchTLEData (Response True status (Text doc)) w = (True, w\<lparr>satellites := []\<rparr>))"
proof -
  have "parseLoop lines 0 [] = filter (\<lambda>r. isDTC (toLowerCase (name r))) (parseLoop_all lines 0 [])"
    for lines
    using parseLoop_filter [of lines 0 "[]"] by simp
  then show ?thesis
    by (simp add: fetchTLEData_ok fetchTLEData_all_ok isDTC_def str_includes_sublist)
qed

theorem dtc_filter_witness:
  "fetchTLEData (Response True 200 (Text doc3)) (demo_world 0)
     = (True, (demo_world 0)\<lparr>satellites := []\<rparr>)
   \<and> satellites (snd (fetchTLEData (Response True 200 (Text doc7)) (demo_world 0)))
     = [\<lparr>name = ''STARLINK-11072 [DTC]'', tle1 = ''l1b'', tle2 = ''l2b''\<rparr>]"
proof -
  have "filter (\<lambda>r. isDTC (toLowerCase (name r)))
          (satellites (snd (fetchTLEData_all (Response True 200 (Text doc3)) (demo_world 0)))) = []"
    using parseLoop_filter [of "js_split newline (js_trim doc3)" 0 "[]"]
    by (simp add: fetchTLEData_all_ok doc3_filtered)
  with dtc_filter [of 200 doc3 "demo_world 0"]
  have "fetchTLEData (Response True 200 (Text doc3)) (demo_world 0)
          = (True, (demo_world 0)\<lparr>satellites := []\<rparr>)"
    by blast
  then show ?thesis
    by (simp add: fetchTLEData_ok doc7_filtered)
qed

text \<open>
  C10. \<^verbatim>\<open>fetchTLEData\<close> always resolves to a boolean. When \<^verbatim>\<open>fetch\<close> rejects, when the
  response is not ok and when reading its text rejects, it resolves to false and the
  stored catalog, with the rest of the state, is as before. It resolves to true only
  for an ok response whose text could be read, and then the catalog is replaced by the
  parsed one. Both scripts behave so.
\<close>

theorem fetch_atomic:
  "fetchTLEData FetchRejected w = (False, w)
   \<and> fetchTLEData (Response False status b) w = (False, w)
   \<and> fetchTLEData (Response True status TextRejected) w = (False, w)
   \<and> fetchTLEData (Response True status (Text doc)) w =
       (True, w\<lparr>satellites := parseLoop (js_split newline (js_trim doc)) 0 []\<rparr>)
   \<and> (\<not> fst (fetchTLEData r w) \<longrightarrow> snd (fetchTLEData r w) = w)
   \<and> fst (fetchTLEData r w) = (\<exists>st doc. r = Response True st (Text doc))
   \<and> fetchTLEData_all FetchRejected w = (False, w)
   \<and> fetchTLEData_all (Response False status b) w = (False, w)
   \<and> fetchTLEData_all (Response True status TextRejected) w = (False, w)
   \<and> fetchTLEData_all (Response True status (Text doc)) w =
       (True, w\<lparr>satellites := parseLoop_all (js_split newline (js_trim doc)) 0 []\<rparr>)
   \<and> (\<not> fst (fetchTLEData_all r w) \<longrightarrow> snd (fetchTLEData_all r w) = w)
   \<and> fst (fetchTLEData_all r w) = (\<exists>st doc. r = Response True st (Text doc))"
proof -
  have "(\<not> fst (fetchTLEData r w) \<longrightarrow> snd (fetchTLEData r w) = w)
        \<and> fst (fetchTLEData r w) = (\<exists>st doc. r = Response True st (Text doc))"
    by (cases r rule: fetch_outcome_cases) (simp_all add: fetchTLEData_failures fetchTLEData_ok)
  moreover
  have "(\<not> fst (fetchTLEData_all r w) \<longrightarrow> snd (fetchTLEData_all r w) = w)
        \<and> fst (fetchTLEData_all r w) = (\<exists>st doc. r = Response True st (Text doc))"
    by (cases r rule: fetch_outcome_cases)
      (simp_all add: fetchTLEData_all_failures fetchTLEData_all_ok)
  ultimately show ?thesis
    unfolding fetchTLEData_failures fetchTLEData_ok fetchTLEData_all_failures fetchTLEData_all_ok
    by blast
qed

theorem fetch_atomic_witness:
  "\<not> fst (fetchTLEData (Response False 503 (Text doc7)) (demo_world 0))
   \<and> snd (fetchTLEData (Response False 503 (Text doc7)) (demo_world 0)) = demo_world 0
   \<and> \<not> fst (fetchTLEData_all FetchRejected (demo_world 0))
   \<and> snd (fetchTLEData_all FetchRejected (demo_world 0)) = demo_world 0"
  using fetch_atomic [of "demo_world 0" 503 "Text doc7" doc7 "Response False 503 (Text doc7)"]
    fetch_atomic [of "demo_world 0" 503 "Text doc7" doc7 FetchRejected]
  by simp

subsection \<open>Sorting\<close>

lemma insert_cmp_insort_key:
  assumes "\<And>a b. (cmp a b \<le> 0) = (k a \<le> k b)"
  shows "insert_cmp cmp x ys = insort_key k x ys"
  by (induction ys) (simp_all add: assms)

lemma array_sort_sort_key:
  assumes "\<And>a b. (cmp a b \<le> 0) = (k a \<le> k b)"
  shows "array_sort cmp xs = sort_key k xs"
  unfolding array_sort_def sort_key_def
  by (induction xs) (simp_all add: insert_cmp_insort_key [OF assms])

lemma sort_byElevationDesc:
  "array_sort byElevationDesc xs = sort_key (\<lambda>v. - parseFloat (vis_elevation v)) xs"
  by (rule array_sort_sort_key) (simp add: byElevationDesc_def)

lemma sort_bySoonest: "array_sort bySoonest xs = sort_key minutesUntil xs"
  by (rule array_sort_sort_key) (simp add: bySoonest_def)

lemma distinct_map_sort_key: "distinct (map f (sort_key k xs)) = distinct (map f xs)"
  by (simp add: distinct_map)

subsection \<open>The two loops of calculatePositions\<close>

lemma visibleStep_append:
  "visibleStep lib gd now acc s = acc @ visibleStep lib gd now [] s"
  by (simp add: visibleStep_def Let_def split: completion.split option.split)

text \<open>\<^verbatim>\<open>forEach\<close> appends what each record contributes, in the order of the catalog.\<close>

lemma foldl_visibleStep:
  "foldl (visibleStep lib gd now) acc sats = acc @ concat (map (visibleStep lib gd now []) sats)"
proof (induction sats arbitrary: acc)
  case Nil
  then show ?case by simp
next
  case (Cons s sats)
  have "foldl (visibleStep lib gd now) acc (s # sats) =
          visibleStep lib gd now acc s @ concat (map (visibleStep lib gd now []) sats)"
    by (simp only: foldl_Cons Cons.IH)
  also have "visibleStep lib gd now acc s = acc @ visibleStep lib gd now [] s"
    by (rule visibleStep_append)
  finally show ?case by simp
qed

lemma visibleStep_names:
  "subseq (map vis_name (visibleStep lib gd now [] s)) [name s]"
  by (simp add: visibleStep_def Let_def split: completion.split option.split)

lemma visible_catalog_order:
  "subseq (map vis_name (concat (map (visibleStep lib gd now []) sats))) (map name sats)"
proof (induction sats)
  case Nil
  then show ?case by simp
next
  case (Cons s sats)
  from list_emb_append_mono [OF visibleStep_names [of lib gd now s] Cons.IH]
  show ?case by simp
qed

lemma passesAt_length:
  "length up < 5 \<Longrightarrow> length (passesAt lib gd t m sats up) \<le> 5"
  by (induction sats arbitrary: up) (auto simp: Let_def split: completion.split option.split)

lemma scanMinutes_length:
  "length up < 5 \<Longrightarrow> length (scanMinutes lib gd now sats m up) \<le> 5"
proof (induction lib gd now sats m up rule: scanMinutes.induct)
  case (1 lib gd now sats m up)
  show ?case
  proof (cases "m \<le> 180")
    case True
    let ?up' = "passesAt lib gd (now + m * 60 * 1000) m (take 100 sats) up"
    have le: "length ?up' \<le> 5" using "1.prems" by (rule passesAt_length)
    show ?thesis
    proof (cases "5 \<le> length ?up'")
      case True
      with le \<open>m \<le> 180\<close> show ?thesis by (subst scanMinutes.simps) (simp add: Let_def)
    next
      case False
      then have "length ?up' < 5" by simp
      from "1.IH" [OF \<open>m \<le> 180\<close> refl refl False this] False \<open>m \<le> 180\<close>
      show ?thesis by (subst scanMinutes.simps) (simp add: Let_def)
    qed
  next
    case False
    with "1.prems" show ?thesis by (subst scanMinutes.simps) simp
  qed
qed

lemma passesAt_distinct:
  "distinct (map pass_name up) \<Longrightarrow> distinct (map pass_name (passesAt lib gd t m sats up))"
proof (induction sats arbitrary: up)
  case Nil
  then show ?case by simp
next
  case (Cons s sats)
  show ?case
    using Cons.prems
    by (auto simp: Let_def find_None_iff split: completion.split option.split intro!: Cons.IH)
      blast
qed

lemma scanMinutes_distinct:
  "distinct (map pass_name up) \<Longrightarrow> distinct (map pass_name (scanMinutes lib gd now sats m up))"
proof (induction lib gd now sats m up rule: scanMinutes.induct)
  case (1 lib gd now sats m up)
  show ?case
  proof (cases "m \<le> 180")
    case True
    let ?up' = "passesAt lib gd (now + m * 60 * 1000) m (take 100 sats) up"
    have d: "distinct (map pass_name ?up')" using "1.prems" by (rule passesAt_distinct)
    show ?thesis
    proof (cases "5 \<le> length ?up'")
      case True
      with d \<open>m \<le> 180\<close> show ?thesis by (subst scanMinutes.simps) (simp add: Let_def)
    next
      case False
      from "1.IH" [OF \<open>m \<le> 180\<close> refl refl False d] False \<open>m \<le> 180\<close>
      show ?thesis by (subst scanMinutes.simps) (simp add: Let_def)
    qed
  next
    case False
    with "1.prems" show ?thesis by (subst scanMinutes.simps) simp
  qed
qed

text \<open>What \<^verbatim>\<open>calculatePositions\<close> hands to \<^verbatim>\<open>renderApp\<close>, once it does not wait.\<close>

lemma calculatePositions_rendered:
  assumes "userLocation w = Some loc" and "satellites w \<noteq> []"
  shows "calculatePositions lib w =
           Rendered
             (array_sort byElevationDesc
                (foldl (visibleStep lib (observerOf loc) (clock w)) [] (satellites w)))
             (if array_sort byElevationDesc
                   (foldl (visibleStep lib (observerOf loc) (clock w)) [] (satellites w)) = []
              then array_sort bySoonest
                     (scanMinutes lib (observerOf loc) (clock w) (satellites w) 1 [])
              else [])"
  using assms by (simp add: calculatePositions_def Let_def)

lemma calculatePositions_cases:
  assumes "calculatePositions lib w = Rendered visible upcoming"
  obtains loc where "userLocation w = Some loc" and "satellites w \<noteq> []"
proof (cases "userLocation w")
  case None
  with assms show ?thesis by (simp add: calculatePositions_def)
next
  case (Some loc)
  with assms have "satellites w \<noteq> []"
    by (auto simp: calculatePositions_def)
  with Some show ?thesis by (rule that)
qed

subsection \<open>Values on the concrete inputs\<close>

lemma demo_at_0:
  "calculatePositions demo_lib (demo_world 0) =
     Rendered []
       [demo_pass ''S1'' 1, demo_pass ''S5'' 1, demo_pass ''S6'' 1, demo_pass ''S8'' 1,
        demo_pass ''S4'' 3]"
  by code_simp

lemma demo_at_120000:
  "calculatePositions demo_lib (demo_world 120000) =
     Rendered
       [demo_entry ''S4'' 859, demo_entry ''S5'' 573, demo_entry ''S6'' 573,
        demo_entry ''S1'' 573, demo_entry ''S1'' 286, demo_entry ''S8'' 286]
       []"
  by code_simp

lemma demo_unsorted:
  "concat (map (visibleStep demo_lib (observerOf origin) 120000 []) demo_sats) =
     [demo_entry ''S1'' 286, demo_entry ''S4'' 859, demo_entry ''S5'' 573,
      demo_entry ''S6'' 573, demo_entry ''S1'' 573, demo_entry ''S8'' 286]"
  by code_simp

lemma demo_fails:
  "failsAt demo_lib (observerOf origin) \<lparr>name = ''S2'', tle1 = ''bad'', tle2 = ''b''\<rparr> t"
  "failsAt demo_lib (observerOf origin) \<lparr>name = ''S3'', tle1 = ''decayed'', tle2 = ''b''\<rparr> t"
  by (simp_all add: failsAt_def lookAnglesAt_def demo_lib_def)

subsection \<open>The sampler\<close>

text \<open>
  C3. Whenever \<^verbatim>\<open>calculatePositions\<close> hands its lists to \<^verbatim>\<open>renderApp\<close>, the list of
  upcoming passes is non-empty only if the list of visible satellites is empty, it has
  at most 5 entries, no two of them with the same name, and it is in ascending order
  of \<^verbatim>\<open>minutesUntil\<close>.
\<close>

theorem upcoming_invariants:
  assumes "calculatePositions lib w = Rendered visible upcoming"
  shows "(upcoming \<noteq> [] \<longrightarrow> visible = [])
         \<and> length upcoming \<le> 5
         \<and> distinct (map pass_name upcoming)
         \<and> sorted (map minutesUntil upcoming)"
proof -
  from assms obtain loc where loc: "userLocation w = Some loc" and cat: "satellites w \<noteq> []"
    by (rule calculatePositions_cases)
  let ?scan = "scanMinutes lib (observerOf loc) (clock w) (satellites w) 1 []"
  from assms have up: "upcoming = (if visible = [] then sort_key minutesUntil ?scan else [])"
    unfolding calculatePositions_rendered [OF loc cat] sort_bySoonest by auto
  have "length ?scan \<le> 5" by (rule scanMinutes_length) simp
  moreover have "distinct (map pass_name ?scan)" by (rule scanMinutes_distinct) simp
  ultimately show ?thesis
    unfolding up by (simp add: distinct_map_sort_key)
qed

theorem upcoming_invariants_witness:
  "calculatePositions demo_lib (demo_world 0) =
     Rendered []
       [demo_pass ''S1'' 1, demo_pass ''S5'' 1, demo_pass ''S6'' 1, demo_pass ''S8'' 1,
        demo_pass ''S4'' 3]
   \<and> length [demo_pass ''S1'' 1, demo_pass ''S5'' 1, demo_pass ''S6'' 1, demo_pass ''S8'' 1,
        demo_pass ''S4'' 3] \<le> 5
   \<and> distinct (map pass_name
        [demo_pass ''S1'' 1, demo_pass ''S5'' 1, demo_pass ''S6'' 1, demo_pass ''S8'' 1,
         demo_pass ''S4'' 3])
   \<and> sorted (map minutesUntil
        [demo_pass ''S1'' 1, demo_pass ''S5'' 1, demo_pass ''S6'' 1, demo_pass ''S8'' 1,
         demo_pass ''S4'' 3])"
  using upcoming_invariants [OF demo_at_0] demo_at_0 by blast

text \<open>
  C4. The list of visible satellites handed to \<^verbatim>\<open>renderApp\<close> is in descending order
  of the elevation its entries show (the elevation rounded to a tenth of a degree), and
  entries with the same elevation are in the order in which the loop over the catalog
  found them, which is the order of the catalog.
\<close>

theorem visible_sorted_stable:
  assumes "calculatePositions lib w = Rendered visible upcoming"
    and "userLocation w = Some loc"
  shows "sorted_wrt (\<lambda>a b. parseFloat (vis_elevation a) \<ge> parseFloat (vis_elevation b)) visible
         \<and> (\<forall>e. filter (\<lambda>v. parseFloat (vis_elevation v) = e) visible =
                 filter (\<lambda>v. parseFloat (vis_elevation v) = e)
                   (concat (map (visibleStep lib (observerOf loc) (clock w) []) (satellites w))))
         \<and> subseq
              (map vis_name
                 (concat (map (visibleStep lib (observerOf loc) (clock w) []) (satellites w))))
              (map name (satellites w))"
proof -
  let ?found = "concat (map (visibleStep lib (observerOf loc) (clock w) []) (satellites w))"
  let ?key = "\<lambda>v. - parseFloat (vis_elevation v)"
  from assms(1) obtain loc' where "userLocation w = Some loc'" and cat: "satellites w \<noteq> []"
    by (rule calculatePositions_cases)
  from assms(1) have vis: "visible = sort_key ?key ?found"
    unfolding calculatePositions_rendered [OF assms(2) cat] sort_byElevationDesc
      foldl_visibleStep by simp
  have "sorted (map ?key visible)"
    unfolding vis by (rule sorted_sort_key)
  then have desc: "sorted_wrt (\<lambda>a b. parseFloat (vis_elevation a) \<ge> parseFloat (vis_elevation b)) visible"
    by (simp add: sorted_map)
  have stable: "filter (\<lambda>v. parseFloat (vis_elevation v) = e) visible =
                filter (\<lambda>v. parseFloat (vis_elevation v) = e) ?found" for e
    using sort_key_stable [of ?key "- e" ?found] unfolding vis by simp
  from desc stable visible_catalog_order [of lib "observerOf loc" "clock w" "satellites w"]
  show ?thesis by blast
qed

theorem visible_sorted_stable_witness:
  "sorted_wrt (\<lambda>a b. parseFloat (vis_elevation a) \<ge> parseFloat (vis_elevation b))
     [demo_entry ''S4'' 859, demo_entry ''S5'' 573, demo_entry ''S6'' 573,
      demo_entry ''S1'' 573, demo_entry ''S1'' 286, demo_entry ''S8'' 286]
   \<and> filter (\<lambda>v. parseFloat (vis_elevation v) = 57.3)
       [demo_entry ''S4'' 859, demo_entry ''S5'' 573, demo_entry ''S6'' 573,
        demo_entry ''S1'' 573, demo_entry ''S1'' 286, demo_entry ''S8'' 286] =
     filter (\<lambda>v. parseFloat (vis_elevation v) = 57.3)
       [demo_entry ''S1'' 286, demo_entry ''S4'' 859, demo_entry ''S5'' 573,
        demo_entry ''S6'' 573, demo_entry ''S1'' 573, demo_entry ''S8'' 286]"
proof -
  have loc: "userLocation (demo_world 120000) = Some origin"
    and cat: "satellites (demo_world 120000) = demo_sats"
    and now: "clock (demo_world 120000) = 120000"
    by (simp_all add: demo_world_def)
  from visible_sorted_stable [OF demo_at_120000 loc]
  show ?thesis unfolding cat now demo_unsorted by blast
qed

lemma passesAt_skip:
  assumes "failsAt lib gd bad t"
  shows "passesAt lib gd t m (pre @ bad # post) up = passesAt lib gd t m (pre @ post) up"
proof (induction pre arbitrary: up)
  case Nil
  from assms show ?case by (auto simp: failsAt_def)
next
  case (Cons x pre)
  then show ?case
    by (simp add: Let_def split: completion.split option.split)
qed

text \<open>The look-ahead depends on the catalog through the scans of its first 100 records.\<close>

lemma scanMinutes_cong:
  assumes "\<And>t m up. passesAt lib gd t m (take 100 sats) up = passesAt lib gd t m (take 100 sats') up"
  shows "scanMinutes lib gd now sats m up = scanMinutes lib gd now sats' m up"
  using assms
proof (induction lib gd now sats m up rule: scanMinutes.induct)
  case (1 lib gd now sats m up)
  let ?found = "passesAt lib gd (now + m * 60 * 1000) m (take 100 sats) up"
  have same: "passesAt lib gd (now + m * 60 * 1000) m (take 100 sats') up = ?found"
    by (rule "1.prems" [symmetric])
  show ?case
  proof (cases "m \<le> 180")
    case True
    show ?thesis
    proof (cases "5 \<le> length ?found")
      case stop: True
      show ?thesis
        by (subst scanMinutes.simps, subst (2) scanMinutes.simps)
          (simp only: Let_def same True stop if_True)
    next
      case False
      have "scanMinutes lib gd now sats (m + 2) ?found = scanMinutes lib gd now sats' (m + 2) ?found"
        using "1.IH" [OF True refl refl False] "1.prems" by blast
      then show ?thesis
        by (subst scanMinutes.simps, subst (2) scanMinutes.simps)
          (simp only: Let_def same True False if_True if_False)
    qed
  next
    case False
    show ?thesis
      by (subst scanMinutes.simps, subst (2) scanMinutes.simps) (simp only: False if_False)
  qed
qed

text \<open>Every record that clears the threshold is evaluated and has its entry.\<close>

lemma visibleStep_clear:
  assumes "lookAnglesAt lib gd s t = Returns (Some la)"
    and "MIN_ELEVATION < elevation la * (180 / Math_PI)"
  shows "visibleStep lib gd t [] s =
           [\<lparr>vis_name = name s,
             vis_azimuth = toFixed (azimuth la * (180 / Math_PI)) 1,
             vis_elevation = toFixed (elevation la * (180 / Math_PI)) 1,
             vis_distance = toFixed (rangeSat la) 0\<rparr>]"
  using assms by (simp add: visibleStep_def Let_def)

lemma visibleStep_count:
  "length (visibleStep lib gd t [] s) = (if clearsAt lib gd s t then 1 else 0)"
  by (simp add: visibleStep_def clearsAt_def Let_def split: completion.split option.split)

lemma found_count:
  "length (concat (map (visibleStep lib gd t []) sats)) =
     length (filter (\<lambda>s. clearsAt lib gd s t) sats)"
  by (induction sats) (simp_all add: visibleStep_count)

lemma passesAt_grows: "set up \<subseteq> set (passesAt lib gd t m sats up)"
proof (induction sats arbitrary: up)
  case Nil
  then show ?case by simp
next
  case (Cons s sats)
  have "set up \<subseteq> set (passesAt lib gd t m sats (up @ [p]))" for p
    using Cons [of "up @ [p]"] by simp
  with Cons [of up] show ?case
    by (auto simp: Let_def split: completion.split option.split)
qed

lemma passesAt_complete:
  assumes "s \<in> set sats" and "clearsAt lib gd s t"
  shows "name s \<in> pass_name ` set (passesAt lib gd t m sats up)
         \<or> 5 \<le> length (passesAt lib gd t m sats up)"
  using assms(1)
proof (induction sats arbitrary: up)
  case Nil
  then show ?case by simp
next
  case (Cons x sats)
  show ?case
  proof (cases "x = s")
    case True
    from assms(2) obtain la where la: "lookAnglesAt lib gd s t = Returns (Some la)"
      and high: "MIN_ELEVATION < elevation la * (180 / Math_PI)"
      by (auto simp: clearsAt_def split: completion.splits option.splits)
    let ?p = "\<lparr>pass_name = name s, pass_time = t, minutesUntil = m\<rparr>"
    show ?thesis
    proof (cases "List.find (\<lambda>p. pass_name p = name s) up")
      case None
      have "?p \<in> set (passesAt lib gd t m sats (up @ [?p]))"
        using passesAt_grows [of "up @ [?p]" lib gd t m sats] by simp
      then have "name s \<in> pass_name ` set (passesAt lib gd t m sats (up @ [?p]))"
        by force
      with True la high None show ?thesis by (simp add: Let_def)
    next
      case (Some q)
      then have "q \<in> set up" and "pass_name q = name s"
        by (auto simp: find_Some_iff)
      then have "name s \<in> pass_name ` set (passesAt lib gd t m sats up)"
        using passesAt_grows [of up lib gd t m sats] by force
      with True la high Some show ?thesis by (simp add: Let_def)
    qed
  next
    case False
    with Cons.prems have "s \<in> set sats" by simp
    from Cons.IH [OF this] show ?thesis
      by (simp add: Let_def split: completion.split option.split)
  qed
qed

lemma demo_scan_60000:
  "passesAt demo_lib (observerOf origin) 60000 1 demo_sats [] =
     [demo_pass ''S1'' 1, demo_pass ''S5'' 1, demo_pass ''S6'' 1, demo_pass ''S8'' 1]"
  by code_simp

lemma demo_clear_count:
  "length (filter (\<lambda>s. clearsAt demo_lib (observerOf origin) s 120000)
             (take 1 demo_sats @ drop 2 demo_sats)) = 6"
  by code_simp

lemma demo_S8:
  "lookAnglesAt demo_lib (observerOf origin) \<lparr>name = ''S8'', tle1 = ''h'', tle2 = ''b''\<rparr> 120000 =
     Returns (Some \<lparr>azimuth = 2, elevation = 1 / 2, rangeSat = 550\<rparr>)"
  "MIN_ELEVATION < 1 / 2 * (180 / Math_PI)"
  "\<lparr>vis_name = ''S8'',
    vis_azimuth = toFixed (2 * (180 / Math_PI)) 1,
    vis_elevation = toFixed (1 / 2 * (180 / Math_PI)) 1,
    vis_distance = toFixed 550 0\<rparr> = demo_entry ''S8'' 286"
  "clearsAt demo_lib (observerOf origin) \<lparr>name = ''S8'', tle1 = ''h'', tle2 = ''b''\<rparr> 60000"
  by (simp_all add: lookAnglesAt_def clearsAt_def demo_lib_def MIN_ELEVATION_def Math_PI_def
        toFixed_def demo_entry_def)

text \<open>
  C5. A record for which a library call throws, or the propagation reports no valid
  position, at the instant of the pass is skipped, and only it. The pass goes on to
  \<^verbatim>\<open>renderApp\<close>, and every remaining record is evaluated: each one that clears the
  threshold has its entry in the visible list, which has as many entries as there are
  such records and is the list that the catalog without the failing record gives. In
  the look-ahead as well, the scan at an instant at which the record fails goes on as
  if the record were not in the list, and every remaining record that clears the
  threshold there is among the passes, unless the scan has stopped at 5 passes. So for
  a catalog of at most 100 records, a record that fails at every instant changes
  nothing: the pass hands to \<^verbatim>\<open>renderApp\<close> what it hands over for the catalog without
  the record.
\<close>

theorem failing_record_skipped:
  assumes "userLocation w = Some loc"
    and "satellites w = xs @ bad # ys"
    and "failsAt lib (observerOf loc) bad (clock w)"
  shows "(\<exists>visible upcoming.
            calculatePositions lib w = Rendered visible upcoming
            \<and> visible = array_sort byElevationDesc
                 (foldl (visibleStep lib (observerOf loc) (clock w)) [] (xs @ ys))
            \<and> length visible =
                length (filter (\<lambda>s. clearsAt lib (observerOf loc) s (clock w)) (xs @ ys))
            \<and> (\<forall>s\<in>set (xs @ ys). \<forall>la.
                  lookAnglesAt lib (observerOf loc) s (clock w) = Returns (Some la)
                  \<and> MIN_ELEVATION < elevation la * (180 / Math_PI)
                  \<longrightarrow> \<lparr>vis_name = name s,
                        vis_azimuth = toFixed (azimuth la * (180 / Math_PI)) 1,
                        vis_elevation = toFixed (elevation la * (180 / Math_PI)) 1,
                        vis_distance = toFixed (rangeSat la) 0\<rparr> \<in> set visible))
         \<and> (\<forall>t m pre post up. failsAt lib (observerOf loc) bad t \<longrightarrow>
               passesAt lib (observerOf loc) t m (pre @ bad # post) up =
               passesAt lib (observerOf loc) t m (pre @ post) up
               \<and> (\<forall>s\<in>set (pre @ post). clearsAt lib (observerOf loc) s t \<longrightarrow>
                     name s \<in> pass_name `
                       set (passesAt lib (observerOf loc) t m (pre @ bad # post) up)
                     \<or> 5 \<le> length (passesAt lib (observerOf loc) t m (pre @ bad # post) up)))
         \<and> ((\<forall>t. failsAt lib (observerOf loc) bad t) \<and> length (satellites w) \<le> 100
               \<and> xs @ ys \<noteq> []
             \<longrightarrow> calculatePositions lib w = calculatePositions lib (w\<lparr>satellites := xs @ ys\<rparr>))"
proof -
  let ?gd = "observerOf loc"
  let ?now = "clock w"
  let ?found = "concat (map (visibleStep lib ?gd ?now []) (xs @ ys))"
  let ?visible = "array_sort byElevationDesc (foldl (visibleStep lib ?gd ?now) [] (xs @ ys))"
  have skip: "visibleStep lib ?gd ?now [] bad = []"
    using assms(3) by (auto simp: failsAt_def visibleStep_def)
  have visible: "foldl (visibleStep lib ?gd ?now) [] (xs @ bad # ys) =
        foldl (visibleStep lib ?gd ?now) [] (xs @ ys)"
    unfolding foldl_visibleStep by (simp add: skip)
  have cat: "satellites w \<noteq> []" using assms(2) by simp
  have rendered: "\<exists>upcoming. calculatePositions lib w = Rendered ?visible upcoming"
    using calculatePositions_rendered [OF assms(1) cat, of lib] assms(2) visible by simp
  have sorted: "?visible = sort_key (\<lambda>v. - parseFloat (vis_elevation v)) ?found"
    by (simp add: sort_byElevationDesc foldl_visibleStep)
  have count: "length ?visible = length (filter (\<lambda>s. clearsAt lib ?gd s ?now) (xs @ ys))"
    unfolding sorted by (simp only: length_sort found_count)
  have member: "\<lparr>vis_name = name s,
                 vis_azimuth = toFixed (azimuth la * (180 / Math_PI)) 1,
                 vis_elevation = toFixed (elevation la * (180 / Math_PI)) 1,
                 vis_distance = toFixed (rangeSat la) 0\<rparr> \<in> set ?visible"
    if "s \<in> set (xs @ ys)" and "lookAnglesAt lib ?gd s ?now = Returns (Some la)
        \<and> MIN_ELEVATION < elevation la * (180 / Math_PI)" for s la
  proof -
    from that(2) have "visibleStep lib ?gd ?now [] s =
           [\<lparr>vis_name = name s,
             vis_azimuth = toFixed (azimuth la * (180 / Math_PI)) 1,
             vis_elevation = toFixed (elevation la * (180 / Math_PI)) 1,
             vis_distance = toFixed (rangeSat la) 0\<rparr>]"
      by (simp add: visibleStep_clear)
    with that(1) have "\<lparr>vis_name = name s,
                 vis_azimuth = toFixed (azimuth la * (180 / Math_PI)) 1,
                 vis_elevation = toFixed (elevation la * (180 / Math_PI)) 1,
                 vis_distance = toFixed (rangeSat la) 0\<rparr> \<in> set ?found"
      by force
    then show ?thesis unfolding sorted by (simp only: set_sort)
  qed
  have ahead: "passesAt lib ?gd t m (pre @ bad # post) up = passesAt lib ?gd t m (pre @ post) up
               \<and> (\<forall>s\<in>set (pre @ post). clearsAt lib ?gd s t \<longrightarrow>
                     name s \<in> pass_name ` set (passesAt lib ?gd t m (pre @ bad # post) up)
                     \<or> 5 \<le> length (passesAt lib ?gd t m (pre @ bad # post) up))"
    if "failsAt lib ?gd bad t" for t m pre post up
    using passesAt_skip [OF that, of m pre post up]
      passesAt_complete [of _ "pre @ post" lib ?gd t m up]
    by simp
  have whole: "calculatePositions lib w = calculatePositions lib (w\<lparr>satellites := xs @ ys\<rparr>)"
    if always: "\<forall>t. failsAt lib ?gd bad t" and short: "length (satellites w) \<le> 100"
      and rest: "xs @ ys \<noteq> []"
  proof -
    from short assms(2) have "take 100 (xs @ bad # ys) = xs @ bad # ys"
      and "take 100 (xs @ ys) = xs @ ys"
      by simp_all
    with always have "passesAt lib ?gd t m (take 100 (xs @ bad # ys)) up =
        passesAt lib ?gd t m (take 100 (xs @ ys)) up" for t m up
      by (simp add: passesAt_skip)
    then have "scanMinutes lib ?gd ?now (xs @ bad # ys) 1 [] =
        scanMinutes lib ?gd ?now (xs @ ys) 1 []"
      by (rule scanMinutes_cong)
    with visible assms(2) show ?thesis
      using calculatePositions_rendered [OF assms(1) cat, of lib]
        calculatePositions_rendered [of "w\<lparr>satellites := xs @ ys\<rparr>" loc lib]
        assms(1) rest
      by simp
  qed
  from rendered count member have first: "\<exists>visible upcoming.
            calculatePositions lib w = Rendered visible upcoming
            \<and> visible = ?visible
            \<and> length visible = length (filter (\<lambda>s. clearsAt lib ?gd s ?now) (xs @ ys))
            \<and> (\<forall>s\<in>set (xs @ ys). \<forall>la.
                  lookAnglesAt lib ?gd s ?now = Returns (Some la)
                  \<and> MIN_ELEVATION < elevation la * (180 / Math_PI)
                  \<longrightarrow> \<lparr>vis_name = name s,
                        vis_azimuth = toFixed (azimuth la * (180 / Math_PI)) 1,
                        vis_elevation = toFixed (elevation la * (180 / Math_PI)) 1,
                        vis_distance = toFixed (rangeSat la) 0\<rparr> \<in> set visible)"
    by blast
  from first ahead whole show ?thesis by blast
qed

theorem failing_record_skipped_witness:
  "(\<exists>visible upcoming.
      calculatePositions demo_lib (demo_world 120000) = Rendered visible upcoming
      \<and> length visible = 6
      \<and> demo_entry ''S8'' 286 \<in> set visible)
   \<and> passesAt demo_lib (observerOf origin) 60000 1 demo_sats [] =
     passesAt demo_lib (observerOf origin) 60000 1 (take 1 demo_sats @ drop 2 demo_sats) []
   \<and> ''S8'' \<in> pass_name ` set (passesAt demo_lib (observerOf origin) 60000 1 demo_sats [])
   \<and> calculatePositions demo_lib (demo_world 120000) =
     calculatePositions demo_lib
       ((demo_world 120000)\<lparr>satellites := take 1 demo_sats @ drop 2 demo_sats\<rparr>)"
proof -
  let ?bad = "\<lparr>name = ''S2'', tle1 = ''bad'', tle2 = ''b''\<rparr>"
  let ?s8 = "\<lparr>name = ''S8'', tle1 = ''h'', tle2 = ''b''\<rparr>"
  let ?rest = "take 1 demo_sats @ drop 2 demo_sats"
  have loc: "userLocation (demo_world 120000) = Some origin"
    and now: "clock (demo_world 120000) = 120000"
    by (simp_all add: demo_world_def)
  have parts: "demo_sats = take 1 demo_sats @ ?bad # drop 2 demo_sats"
    by (simp add: demo_sats_def)
  then have cat: "satellites (demo_world 120000) = take 1 demo_sats @ ?bad # drop 2 demo_sats"
    by (simp add: demo_world_def)
  have short: "length (satellites (demo_world 120000)) \<le> 100"
    and rest: "?rest \<noteq> []" and s8: "?s8 \<in> set ?rest"
    by (simp_all add: demo_world_def demo_sats_def)
  have fails: "failsAt demo_lib (observerOf origin) ?bad t" for t
    by (rule demo_fails)
  note skipped = failing_record_skipped [OF loc cat fails, unfolded now]
  from skipped obtain visible upcoming
    where v: "calculatePositions demo_lib (demo_world 120000) = Rendered visible upcoming"
      and n: "length visible =
                length (filter (\<lambda>s. clearsAt demo_lib (observerOf origin) s 120000) ?rest)"
      and m: "\<forall>s\<in>set ?rest. \<forall>la.
                  lookAnglesAt demo_lib (observerOf origin) s 120000 = Returns (Some la)
                  \<and> MIN_ELEVATION < elevation la * (180 / Math_PI)
                  \<longrightarrow> \<lparr>vis_name = name s,
                        vis_azimuth = toFixed (azimuth la * (180 / Math_PI)) 1,
                        vis_elevation = toFixed (elevation la * (180 / Math_PI)) 1,
                        vis_distance = toFixed (rangeSat la) 0\<rparr> \<in> set visible"
    by blast
  from m s8 demo_S8(1,2) have "\<lparr>vis_name = ''S8'',
    vis_azimuth = toFixed (2 * (180 / Math_PI)) 1,
    vis_elevation = toFixed (1 / 2 * (180 / Math_PI)) 1,
    vis_distance = toFixed 550 0\<rparr> \<in> set visible"
    by fastforce
  then have "demo_entry ''S8'' 286 \<in> set visible"
    unfolding demo_S8(3) .
  with v n have first: "\<exists>visible upcoming.
      calculatePositions demo_lib (demo_world 120000) = Rendered visible upcoming
      \<and> length visible = 6
      \<and> demo_entry ''S8'' 286 \<in> set visible"
    unfolding demo_clear_count by blast
  from skipped fails [of 60000]
  have ahead: "passesAt demo_lib (observerOf origin) 60000 1 (take 1 demo_sats @ ?bad # drop 2 demo_sats) [] =
        passesAt demo_lib (observerOf origin) 60000 1 ?rest []
      \<and> (\<forall>s\<in>set ?rest. clearsAt demo_lib (observerOf origin) s 60000 \<longrightarrow>
            name s \<in> pass_name `
              set (passesAt demo_lib (observerOf origin) 60000 1
                     (take 1 demo_sats @ ?bad # drop 2 demo_sats) [])
            \<or> 5 \<le> length (passesAt demo_lib (observerOf origin) 60000 1
                     (take 1 demo_sats @ ?bad # drop 2 demo_sats) []))"
    by blast
  with s8 demo_S8(4)
  have "name ?s8 \<in> pass_name `
              set (passesAt demo_lib (observerOf origin) 60000 1
                     (take 1 demo_sats @ ?bad # drop 2 demo_sats) [])
            \<or> 5 \<le> length (passesAt demo_lib (observerOf origin) 60000 1
                     (take 1 demo_sats @ ?bad # drop 2 demo_sats) [])"
    by blast
  then have found: "''S8'' \<in> pass_name ` set (passesAt demo_lib (observerOf origin) 60000 1 demo_sats [])"
    unfolding parts [symmetric] demo_scan_60000 by simp
  from skipped fails short rest
  have whole: "calculatePositions demo_lib (demo_world 120000) =
     calculatePositions demo_lib ((demo_world 120000)\<lparr>satellites := ?rest\<rparr>)"
    by blast
  from first ahead found whole parts show ?thesis by simp
qed

subsection \<open>The script against the sampler of the specification\<close>














end
